theory Spec2Isabelle
  imports Complex_Main "HOL-Library.Word"
begin

section \<open>Durations, errors and floating-point primitives\<close>

text \<open>
  \<^verbatim>\<open>time.Duration\<close> is a signed 64-bit count of nanoseconds: \<open>+\<close> and \<open>*\<close> wrap,
  and \<open>sint\<close> reads the two's-complement value. Go's \<^verbatim>\<open>uint\<close> iteration numbers are
  modelled as \<open>nat\<close>: the only arithmetic the source performs on them is \<^verbatim>\<open>i++\<close>
  under the guard \<^verbatim>\<open>i < n\<close>, which cannot wrap.
\<close>

type_synonym duration = "64 word"

text \<open>
  Error values. \<open>Error s\<close> is a value of the package's string type \<^verbatim>\<open>Error\<close>;
  \<open>FmtError s\<close> is an error built by \<^verbatim>\<open>fmt.Errorf\<close> with message \<open>s\<close>; \<open>Foreign s\<close>
  is an error value of any other type (such as \<^verbatim>\<open>context.Canceled\<close>), named by \<open>s\<close>.
  Equality of the model is Go's interface equality: same dynamic type, same value.
\<close>

datatype error = Error string | FmtError string | Foreign string

definition ErrAttemptsExhausted :: error where
  "ErrAttemptsExhausted = Error ''all attempts exhausted''"

definition ErrDoRetry :: error where
  "ErrDoRetry = Error ''retry attempt''"

definition ErrNegativeDuration :: error where
  "ErrNegativeDuration = Error ''negative duration''"

definition ErrNilAlgorithm :: error where
  "ErrNilAlgorithm = Error ''nil algorithm''"

definition ErrNoFunction :: error where
  "ErrNoFunction = Error ''no function defined''"

definition ErrNoLogBase :: error where
  "ErrNoLogBase = Error ''no log base specified''"

definition ErrTooFewIterations :: error where
  "ErrTooFewIterations = Error ''too few iterations''"

text \<open>
  The \<^verbatim>\<open>float64\<close> operations the delay algorithms use are parameters of the model: the
  conversion \<^verbatim>\<open>float64(n)\<close> of an iteration number, the constant \<open>1\<close>, multiplication,
  subtraction, the library function \<^verbatim>\<open>math.Log\<close>, and the conversion
  \<^verbatim>\<open>time.Duration(x)\<close> of a float to a 64-bit integer. \<open>fmuladd x y z\<close> is the
  expression \<^verbatim>\<open>x*y + z\<close>, which a Go compiler may evaluate with two roundings or fuse
  into one. A theorem stated for every \<open>ops\<close> holds whatever these operations compute
  (rounding, infinities and NaN included).
\<close>

record 'f float_ops =
  of_uint :: "nat \<Rightarrow> 'f"
  fone :: 'f
  fmul :: "'f \<Rightarrow> 'f \<Rightarrow> 'f"
  fsub :: "'f \<Rightarrow> 'f \<Rightarrow> 'f"
  fmuladd :: "'f \<Rightarrow> 'f \<Rightarrow> 'f \<Rightarrow> 'f"
  flog :: "'f \<Rightarrow> 'f"
  to_duration :: "'f \<Rightarrow> duration"

text \<open>
  The instance used to run the model on concrete inputs computes on the reals without
  rounding, and converts to a duration by truncating towards zero. It agrees with binary64
  arithmetic wherever every intermediate value is exactly representable and the truncated
  result fits 64 bits, which is the case at each concrete input evaluated below.
\<close>

definition trunc_real :: "real \<Rightarrow> int" where
  "trunc_real x = (if 0 \<le> x then \<lfloor>x\<rfloor> else \<lceil>x\<rceil>)"

definition exact_ops :: "real float_ops" where
  "exact_ops = \<lparr>of_uint = real, fone = 1, fmul = (*), fsub = (-),
     fmuladd = (\<lambda>x y z. x * y + z), flog = ln,
     to_duration = (\<lambda>x. word_of_int (trunc_real x))\<rparr>"

section \<open>The unit constants of rerun.go\<close>

type_synonym delayUnits = duration

definition Nanosecond :: delayUnits where "Nanosecond = 1"
definition Microsecond :: delayUnits where "Microsecond = 1000"
definition Millisecond :: delayUnits where "Millisecond = 1000000"
definition Second :: delayUnits where "Second = 1000000000"
definition Minute :: delayUnits where "Minute = 60000000000"
definition Hour :: delayUnits where "Hour = 3600000000000"

section \<open>The Algorithm interface\<close>

text \<open>
  An interface value is the record of its three methods. The loop shared by the \<^verbatim>\<open>OK\<close>
  methods of LinearDelay and LogarithmicDelay,
  \<^verbatim>\<open>for i := uint(1); i < n; i++ { if ld.Wait(i) < 0 { return ErrNegativeDuration } }; return nil\<close>,
  is \<open>wait_loop\<close>, started at \<open>i = 1\<close>.
\<close>

record Algorithm =
  OK :: "nat \<Rightarrow> error option"
  Warmup :: duration
  Wait :: "nat \<Rightarrow> duration"

function wait_loop :: "(nat \<Rightarrow> duration) \<Rightarrow> nat \<Rightarrow> nat \<Rightarrow> error option" where
  "wait_loop w n i =
     (if i < n then (if sint (w i) < 0 then Some ErrNegativeDuration else wait_loop w n (Suc i))
      else None)"
  by pat_completeness auto
termination
  by (relation "measure (\<lambda>(w, n, i). n - i)") auto

declare wait_loop.simps [simp del]

subsection \<open>FixedDelay\<close>

type_synonym FixedDelay = duration

definition Fixed1s :: FixedDelay where "Fixed1s = 1000000000"
definition Fixed100ms :: FixedDelay where "Fixed100ms = 100 * 1000000"
definition Fixed500ms :: FixedDelay where "Fixed500ms = 500 * 1000000"

definition FixedDelay_OK :: "FixedDelay \<Rightarrow> nat \<Rightarrow> error option" where
  "FixedDelay_OK fd n = (if sint fd < 0 then Some ErrNegativeDuration else None)"

definition FixedDelay_Warmup :: "FixedDelay \<Rightarrow> duration" where
  "FixedDelay_Warmup fd = 0"

definition FixedDelay_Wait :: "FixedDelay \<Rightarrow> nat \<Rightarrow> duration" where
  "FixedDelay_Wait fd n = fd"

definition FixedDelay_alg :: "FixedDelay \<Rightarrow> Algorithm" where
  "FixedDelay_alg fd =
     \<lparr>OK = FixedDelay_OK fd, Warmup = FixedDelay_Warmup fd, Wait = FixedDelay_Wait fd\<rparr>"

subsection \<open>LinearDelay\<close>

record 'f LinearDelay =
  Start :: duration
  Base :: duration
  Slope :: 'f

definition LinearDelay_Wait :: "'f float_ops \<Rightarrow> 'f LinearDelay \<Rightarrow> nat \<Rightarrow> duration" where
  "LinearDelay_Wait ops ld n =
     (if n = 0 then 0
      else to_duration ops (fmul ops (Slope ld) (fsub ops (of_uint ops n) (fone ops))) + Base ld)"

definition LinearDelay_OK :: "'f float_ops \<Rightarrow> 'f LinearDelay \<Rightarrow> nat \<Rightarrow> error option" where
  "LinearDelay_OK ops ld n =
     (if sint (LinearDelay.Start ld) < 0 then Some ErrNegativeDuration
      else if 0 \<le> sint (LinearDelay_Wait ops ld n) then None
      else wait_loop (LinearDelay_Wait ops ld) n 1)"

definition LinearDelay_Warmup :: "'f LinearDelay \<Rightarrow> duration" where
  "LinearDelay_Warmup ld = LinearDelay.Start ld"

definition LinearDelay_alg :: "'f float_ops \<Rightarrow> 'f LinearDelay \<Rightarrow> Algorithm" where
  "LinearDelay_alg ops ld =
     \<lparr>OK = LinearDelay_OK ops ld, Warmup = LinearDelay_Warmup ld, Wait = LinearDelay_Wait ops ld\<rparr>"

subsection \<open>LogarithmicDelay\<close>

record 'f LogarithmicDelay =
  Start :: duration
  Units :: delayUnits
  Amplifier :: 'f
  Coefficient :: 'f
  Modifier :: 'f
  VerticalOffset :: 'f
  Denominator :: 'f

definition LogarithmicDelay_Wait :: "'f float_ops \<Rightarrow> 'f LogarithmicDelay \<Rightarrow> nat \<Rightarrow> duration" where
  "LogarithmicDelay_Wait ops ld n =
     (if n = 0 then 0
      else let d = to_duration ops
                     (fmuladd ops (Amplifier ld)
                        (flog ops (fmuladd ops (Coefficient ld) (of_uint ops n) (Modifier ld)))
                        (VerticalOffset ld))
           in Units ld * d)"

definition LogarithmicDelay_OK :: "'f float_ops \<Rightarrow> 'f LogarithmicDelay \<Rightarrow> nat \<Rightarrow> error option" where
  "LogarithmicDelay_OK ops ld n =
     (if sint (LogarithmicDelay.Start ld) < 0 then Some ErrNegativeDuration
      else wait_loop (LogarithmicDelay_Wait ops ld) n 1)"

definition LogarithmicDelay_Warmup :: "'f LogarithmicDelay \<Rightarrow> duration" where
  "LogarithmicDelay_Warmup ld = LogarithmicDelay.Start ld"

definition LogarithmicDelay_alg :: "'f float_ops \<Rightarrow> 'f LogarithmicDelay \<Rightarrow> Algorithm" where
  "LogarithmicDelay_alg ops ld =
     \<lparr>OK = LogarithmicDelay_OK ops ld, Warmup = LogarithmicDelay_Warmup ld,
      Wait = LogarithmicDelay_Wait ops ld\<rparr>"

section \<open>Contexts and the cancellable sleep\<close>

text \<open>
  A run of \<^verbatim>\<open>Execute\<close> is a sequence of blocking steps: sleeps of positive duration and
  invocations of the function. The \<open>clock\<close> of the run state counts the blocking steps
  completed so far, and \<open>trace\<close> records what the run did. The run inspects its context
  only in the \<^verbatim>\<open>select\<close> of a sleep of positive duration and in the deferred
  function of \<^verbatim>\<open>Execute\<close>; these inspections happen at pairwise different clock values.

  A context is described by what a run can observe of it. \<open>fires_at ctx = Some k\<close> says
  that the inspection made at clock \<open>k\<close> (were there one) is the first that finds
  \<^verbatim>\<open>ctx.Done()\<close> closed, a sleep finding it closed when it closes before the timer
  expires; \<open>None\<close> says the signal never fires. \<open>timer_first ctx t\<close> says that in the
  sleep at clock \<open>t\<close> the timer channel is ready as well and \<^verbatim>\<open>select\<close> takes that
  branch. \<open>ctx_Err\<close> and \<open>ctx_Cause\<close> are what \<^verbatim>\<open>ctx.Err()\<close> and
  \<^verbatim>\<open>context.Cause(ctx)\<close> return once the signal has fired.
\<close>

record Context =
  fires_at :: "nat option"
  timer_first :: "nat \<Rightarrow> bool"
  ctx_Err :: error
  ctx_Cause :: error

definition ctx_done :: "Context \<Rightarrow> nat \<Rightarrow> bool" where
  "ctx_done ctx t = (case fires_at ctx of None \<Rightarrow> False | Some k \<Rightarrow> k \<le> t)"

datatype event = NewTimer duration | StopTimer | QueryWarmup | QueryWait nat | Invoke nat

record run_state =
  clock :: nat
  trace :: "event list"

definition emit :: "event \<Rightarrow> run_state \<Rightarrow> run_state" where
  "emit e st = st\<lparr>trace := trace st @ [e]\<rparr>"

definition tick :: "run_state \<Rightarrow> run_state" where
  "tick st = st\<lparr>clock := Suc (clock st)\<rparr>"

definition sleep :: "Context \<Rightarrow> duration \<Rightarrow> run_state \<Rightarrow> error option \<times> run_state" where
  "sleep ctx d st =
     (if d = 0 then (None, st)
      else if sint d < 0 then (Some ErrNegativeDuration, st)
      else let st1 = emit (NewTimer d) st;
               res = (if ctx_done ctx (clock st1) \<and> \<not> timer_first ctx (clock st1)
                      then Some (ctx_Err ctx) else None)
           in (res, tick (emit StopTimer st1)))"

section \<open>The retry executor\<close>

text \<open>
  A call either returns or panics; the string of \<open>Panic\<close> is the panic value as
  \<^verbatim>\<open>%v\<close> prints it (the value \<^verbatim>\<open>recover\<close> returns is not nil: since Go 1.21 a
  \<^verbatim>\<open>panic(nil)\<close> is recovered as a \<^verbatim>\<open>PanicNilError\<close>). A \<^verbatim>\<open>Func\<close> is called at most
  once for each attempt index during a run, so it is modelled by its outcome at each
  index. \<^verbatim>\<open>runFunction\<close> records the invocation and turns a panic into an error; calling
  a nil \<^verbatim>\<open>Func\<close> panics inside it like any other call.
\<close>

datatype 'a outcome = Return 'a | Panic string

type_synonym Func = "nat \<Rightarrow> error option outcome"

record Rerun =
  iterations :: nat
  algorithm :: "Algorithm option"
  "function" :: "Func option"
  err :: "error option"

definition nil_dereference :: string where
  "nil_dereference = ''runtime error: invalid memory address or nil pointer dereference''"

definition DefaultAlgorithm :: Algorithm where
  "DefaultAlgorithm = FixedDelay_alg Fixed1s"

definition New :: "nat \<Rightarrow> Rerun" where
  "New i = \<lparr>iterations = i, algorithm = Some DefaultAlgorithm, function = None, err = None\<rparr>"

definition WithAlgorithm :: "Rerun \<Rightarrow> Algorithm option \<Rightarrow> Rerun" where
  "WithAlgorithm r algo =
     (let r1 = (case algo of None \<Rightarrow> r\<lparr>err := Some ErrNilAlgorithm\<rparr>
                | Some a \<Rightarrow> r\<lparr>err := OK a (iterations r)\<rparr>)
      in r1\<lparr>algorithm := algo\<rparr>)"

definition WithFunction :: "Rerun \<Rightarrow> Func option \<Rightarrow> Rerun" where
  "WithFunction r f = r\<lparr>function := f\<rparr>"

definition Err :: "Rerun \<Rightarrow> error option outcome" where
  "Err r =
     (case err r of
        Some e \<Rightarrow> Return (Some e)
      | None \<Rightarrow> (case algorithm r of
                   None \<Rightarrow> Panic nil_dereference
                 | Some a \<Rightarrow> Return (OK a (iterations r))))"

definition runFunction :: "Rerun \<Rightarrow> nat \<Rightarrow> run_state \<Rightarrow> error option \<times> run_state" where
  "runFunction r i st =
     (let st1 = tick (emit (Invoke i) st) in
      case (case function r of None \<Rightarrow> Panic nil_dereference | Some f \<Rightarrow> f i) of
        Return e \<Rightarrow> (e, st1)
      | Panic perr \<Rightarrow> (Some (FmtError (''recovered from panic: '' @ perr)), st1))"

function exec_loop ::
  "Context \<Rightarrow> Algorithm \<Rightarrow> Rerun \<Rightarrow> nat \<Rightarrow> run_state \<Rightarrow> error option \<times> run_state" where
  "exec_loop ctx alg r i st =
     (if i < iterations r then
        (case (if 0 < i then sleep ctx (Wait alg i) (emit (QueryWait i) st) else (None, st)) of
           (Some e, st1) \<Rightarrow> (Some e, st1)
         | (None, st1) \<Rightarrow>
             (case runFunction r i st1 of
                (None, st2) \<Rightarrow> (None, st2)
              | (Some e, st2) \<Rightarrow>
                  if e = ErrDoRetry then exec_loop ctx alg r (Suc i) st2 else (Some e, st2)))
      else (Some ErrAttemptsExhausted, st))"
  by pat_completeness auto
termination
  by (relation "measure (\<lambda>(ctx, alg, r, i, st). iterations r - i)") auto

declare exec_loop.simps [simp del]

definition Execute_body :: "Rerun \<Rightarrow> Context \<Rightarrow> run_state \<Rightarrow> error option outcome \<times> run_state" where
  "Execute_body r ctx st =
     (if function r = None then (Return (Some ErrNoFunction), st)
      else if iterations r < 2 then (Return (Some ErrTooFewIterations), st)
      else case Err r of
             Panic v \<Rightarrow> (Panic v, st)
           | Return (Some e) \<Rightarrow> (Return (Some e), st)
           | Return None \<Rightarrow>
               (case algorithm r of
                  None \<Rightarrow> (Panic nil_dereference, st)
                | Some alg \<Rightarrow>
                    (case sleep ctx (Warmup alg) (emit QueryWarmup st) of
                       (Some e, st1) \<Rightarrow> (Return (Some e), st1)
                     | (None, st1) \<Rightarrow>
                         (case exec_loop ctx alg r 0 st1 of (e, st2) \<Rightarrow> (Return e, st2)))))"

text \<open>
  The deferred function of \<^verbatim>\<open>Execute\<close> runs when the body returns: a \<^verbatim>\<open>select\<close>
  with a \<^verbatim>\<open>default\<close> branch takes the \<^verbatim>\<open>ctx.Done()\<close> branch exactly when that
  channel is closed, and then overwrites the named result.
\<close>

definition Execute :: "Rerun \<Rightarrow> Context \<Rightarrow> error option outcome \<times> run_state" where
  "Execute r ctx =
     (case Execute_body r ctx \<lparr>clock = 0, trace = []\<rparr> of
        (Return e, st) \<Rightarrow>
          (Return (if ctx_done ctx (clock st) then Some (ctx_Cause ctx) else e), st)
      | (Panic v, st) \<Rightarrow> (Panic v, st))"

section \<open>Reading a trace\<close>

text \<open>
  \<open>invoked\<close> lists the attempt indices the function was called with, in order, and
  \<open>waits_queried\<close> the arguments of the calls to \<^verbatim>\<open>Wait\<close>. \<open>timer_events d\<close> is what a
  sleep of a non-negative duration \<open>d\<close> leaves in the trace, and \<open>attempt_events alg i\<close>
  is what one full loop iteration leaves: for \<open>i > 0\<close> the query of \<^verbatim>\<open>Wait(i)\<close> and its
  sleep, then the invocation.
\<close>

fun invoked :: "event list \<Rightarrow> nat list" where
  "invoked [] = []"
| "invoked (Invoke i # es) = i # invoked es"
| "invoked (e # es) = invoked es"

fun waits_queried :: "event list \<Rightarrow> nat list" where
  "waits_queried [] = []"
| "waits_queried (QueryWait i # es) = i # waits_queried es"
| "waits_queried (e # es) = waits_queried es"

definition timer_events :: "duration \<Rightarrow> event list" where
  "timer_events d = (if d = 0 then [] else [NewTimer d, StopTimer])"

definition attempt_events :: "Algorithm \<Rightarrow> nat \<Rightarrow> event list" where
  "attempt_events alg i =
     (if 0 < i then QueryWait i # timer_events (Wait alg i) else []) @ [Invoke i]"

section \<open>The line of a LinearDelay in exact arithmetic\<close>

text \<open>
  In exact arithmetic the wait of a LinearDelay at iteration \<open>k \<ge> 1\<close> is \<open>line_at ld k\<close>
  as long as that value fits 64 bits; \<open>fits ld n\<close> says it does up to iteration \<open>n\<close>.
\<close>

definition line_at :: "real LinearDelay \<Rightarrow> nat \<Rightarrow> int" where
  "line_at ld k = trunc_real (Slope ld * (real k - 1)) + sint (Base ld)"

definition fits :: "real LinearDelay \<Rightarrow> nat \<Rightarrow> bool" where
  "fits ld n =
     (\<forall>k. 1 \<le> k \<and> k \<le> n \<longrightarrow> - (2 ^ 63) \<le> line_at ld k \<and> line_at ld k < 2 ^ 63)"

section \<open>Concrete inputs\<close>

definition quiet_ctx :: Context where
  "quiet_ctx = \<lparr>fires_at = None, timer_first = (\<lambda>t. False),
     ctx_Err = Foreign ''context canceled'', ctx_Cause = Foreign ''context canceled''\<rparr>"

definition fired_ctx :: "nat \<Rightarrow> Context" where
  "fired_ctx k = \<lparr>fires_at = Some k, timer_first = (\<lambda>t. False),
     ctx_Err = Foreign ''context deadline exceeded'', ctx_Cause = Foreign ''shutting down''\<rparr>"

definition always_retry :: Func where
  "always_retry i = Return (Some ErrDoRetry)"

definition always_panic :: Func where
  "always_panic i = Panic ''boom''"

definition succeed :: Func where
  "succeed i = Return None"

definition third_time_lucky :: Func where
  "third_time_lucky i = (if i < 2 then Return (Some ErrDoRetry) else Return None)"

definition retry_rerun :: Rerun where
  "retry_rerun =
     WithFunction (WithAlgorithm (New 3) (Some (FixedDelay_alg Fixed100ms))) (Some always_retry)"

definition panic_rerun :: Rerun where
  "panic_rerun = WithFunction (New 2) (Some always_panic)"

definition succeed_rerun :: Rerun where
  "succeed_rerun = WithFunction (New 2) (Some succeed)"

definition rising_line :: "real LinearDelay" where
  "rising_line = \<lparr>LinearDelay.Start = 0, Base = - 1, Slope = 1\<rparr>"

definition slow_start :: "real LinearDelay" where
  "slow_start = \<lparr>LinearDelay.Start = 1000000000, Base = 0, Slope = 0\<rparr>"

definition falling_line :: "real LinearDelay" where
  "falling_line = \<lparr>LinearDelay.Start = 0, Base = 100000000, Slope = - 25\<rparr>"

definition zero_amplifier :: "real LogarithmicDelay" where
  "zero_amplifier = \<lparr>LogarithmicDelay.Start = 0, Units = Millisecond, Amplifier = 0,
     Coefficient = 1, Modifier = 0, VerticalOffset = 0, Denominator = 1\<rparr>"

definition zero_coefficient :: "real LogarithmicDelay" where
  "zero_coefficient = \<lparr>LogarithmicDelay.Start = 0, Units = Millisecond, Amplifier = 1,
     Coefficient = 0, Modifier = 1, VerticalOffset = 0, Denominator = 1\<rparr>"

definition half_unit :: "real LogarithmicDelay" where
  "half_unit = \<lparr>LogarithmicDelay.Start = 0, Units = Millisecond, Amplifier = 0,
     Coefficient = 1, Modifier = 0, VerticalOffset = 1 / 2, Denominator = 1\<rparr>"

section \<open>The validity loop\<close>

lemma wait_loop_None_iff:
  "(wait_loop w n i = None) = (\<forall>j. i \<le> j \<and> j < n \<longrightarrow> 0 \<le> sint (w j))"
proof (induction w n i rule: wait_loop.induct)
  case (1 w n i)
  show ?case
  proof (cases "i < n")
    case False
    then show ?thesis by (simp add: wait_loop.simps [of w n i])
  next
    case True
    show ?thesis
    proof (cases "sint (w i) < 0")
      case neg: True
      with True have "wait_loop w n i \<noteq> None" by (simp add: wait_loop.simps [of w n i])
      moreover from neg True have "\<not> (\<forall>j. i \<le> j \<and> j < n \<longrightarrow> 0 \<le> sint (w j))"
        by (metis le_refl not_le)
      ultimately show ?thesis by blast
    next
      case nonneg: False
      with True have eq: "wait_loop w n i = wait_loop w n (Suc i)"
        by (simp add: wait_loop.simps [of w n i])
      have "(\<forall>j. Suc i \<le> j \<and> j < n \<longrightarrow> 0 \<le> sint (w j)) =
            (\<forall>j. i \<le> j \<and> j < n \<longrightarrow> 0 \<le> sint (w j))"
        using nonneg by (metis Suc_leD Suc_leI le_neq_implies_less not_le)
      with "1.IH" [OF True nonneg] eq show ?thesis by simp
    qed
  qed
qed

lemma wait_loop_result:
  "wait_loop w n i = None \<or> wait_loop w n i = Some ErrNegativeDuration"
  by (induction w n i rule: wait_loop.induct) (subst (1 2) wait_loop.simps, simp)

lemma LinearDelay_OK_None_iff:
  "(LinearDelay_OK ops ld n = None) =
   (0 \<le> sint (LinearDelay.Start ld) \<and>
    (0 \<le> sint (LinearDelay_Wait ops ld n) \<or>
     (\<forall>i. 1 \<le> i \<and> i < n \<longrightarrow> 0 \<le> sint (LinearDelay_Wait ops ld i))))"
  by (simp add: LinearDelay_OK_def wait_loop_None_iff ErrNegativeDuration_def)

lemma LogarithmicDelay_OK_None_iff:
  "(LogarithmicDelay_OK ops ld n = None) =
   (0 \<le> sint (LogarithmicDelay.Start ld) \<and>
    (\<forall>i. 1 \<le> i \<and> i < n \<longrightarrow> 0 \<le> sint (LogarithmicDelay_Wait ops ld i)))"
  by (simp add: LogarithmicDelay_OK_def wait_loop_None_iff ErrNegativeDuration_def)

text \<open>
  For FixedDelay and LogarithmicDelay a successful check does bound the waits of the
  checked range from below.
\<close>

lemma FixedDelay_OK_nonneg:
  "FixedDelay_OK fd n = None \<Longrightarrow> 0 \<le> sint (FixedDelay_Wait fd i)"
  by (simp add: FixedDelay_OK_def FixedDelay_Wait_def split: if_splits)

lemma LogarithmicDelay_OK_nonneg:
  "LogarithmicDelay_OK ops ld n = None \<Longrightarrow> 1 \<le> i \<Longrightarrow> i < n \<Longrightarrow>
   0 \<le> sint (LogarithmicDelay_Wait ops ld i)"
  by (simp add: LogarithmicDelay_OK_None_iff)

lemma rising_line_waits:
  "LinearDelay_Wait exact_ops rising_line 1 = - 1"
  "LinearDelay_Wait exact_ops rising_line 2 = 0"
  by (simp_all add: LinearDelay_Wait_def exact_ops_def trunc_real_def rising_line_def)

lemma falling_line_wait:
  "LinearDelay_Wait exact_ops falling_line 5 = 99999900"
  by (simp add: LinearDelay_Wait_def exact_ops_def trunc_real_def falling_line_def)

lemma LogarithmicDelay_OK_short:
  "0 \<le> sint (LogarithmicDelay.Start ld) \<Longrightarrow> n \<le> 1 \<Longrightarrow> LogarithmicDelay_OK ops ld n = None"
  by (simp add: LogarithmicDelay_OK_None_iff)

lemma zero_amplifier_wait: "LogarithmicDelay_Wait exact_ops zero_amplifier n = 0"
  by (simp add: LogarithmicDelay_Wait_def exact_ops_def trunc_real_def zero_amplifier_def)

lemma zero_coefficient_wait: "LogarithmicDelay_Wait exact_ops zero_coefficient n = 0"
  by (simp add: LogarithmicDelay_Wait_def exact_ops_def trunc_real_def zero_coefficient_def)

subsection \<open>LinearDelay with a non-negative base, in exact arithmetic\<close>

lemma trunc_real_mono: "x \<le> y \<Longrightarrow> trunc_real x \<le> trunc_real y"
proof -
  assume xy: "x \<le> y"
  show ?thesis
  proof (cases "0 \<le> x")
    case True
    with xy show ?thesis by (simp add: trunc_real_def floor_mono)
  next
    case False
    show ?thesis
    proof (cases "0 \<le> y")
      case True
      from False have "\<lceil>x\<rceil> \<le> 0" by (simp add: ceiling_le_iff)
      moreover from True have "0 \<le> \<lfloor>y\<rfloor>" by simp
      ultimately have "\<lceil>x\<rceil> \<le> \<lfloor>y\<rfloor>" by linarith
      with False True show ?thesis by (simp add: trunc_real_def)
    next
      case ny: False
      with False xy show ?thesis by (simp add: trunc_real_def ceiling_mono)
    qed
  qed
qed

lemma trunc_real_nonneg: "0 \<le> x \<Longrightarrow> 0 \<le> trunc_real x"
  by (simp add: trunc_real_def)

lemma exact_linear_sint:
  assumes "1 \<le> k" and "- (2 ^ 63) \<le> line_at ld k" and "line_at ld k < 2 ^ 63"
  shows "sint (LinearDelay_Wait exact_ops ld k) = line_at ld k"
proof -
  have "LinearDelay_Wait exact_ops ld k =
        word_of_int (trunc_real (Slope ld * (real k - 1))) + word_of_int (sint (Base ld))"
    using assms(1) by (simp add: LinearDelay_Wait_def exact_ops_def)
  also have "\<dots> = word_of_int (line_at ld k)"
    by (simp only: line_at_def of_int_add)
  finally have "sint (LinearDelay_Wait exact_ops ld k) = signed_take_bit 63 (line_at ld k)"
    by (simp add: sint_sbintrunc')
  with assms(2,3) show ?thesis
    by (simp add: signed_take_bit_int_eq_self)
qed

text \<open>
  With \<open>Start \<ge> 0\<close>, \<open>Base \<ge> 0\<close> and no overflow, a line that is non-negative at
  iteration \<open>n\<close> is non-negative at every earlier iteration, so the early return of
  \<^verbatim>\<open>OK\<close> accepts nothing the loop would reject: the check succeeds exactly when every
  wait of \<open>1..n-1\<close> is non-negative. What \<^verbatim>\<open>OK\<close> lacks is the test of \<open>Base\<close>.
\<close>

lemma exact_linear_OK_iff:
  assumes start: "0 \<le> sint (LinearDelay.Start ld)" and base: "0 \<le> sint (Base ld)"
    and fits: "fits ld n"
  shows "(LinearDelay_OK exact_ops ld n = None) =
         (\<forall>i. 1 \<le> i \<and> i < n \<longrightarrow> 0 \<le> sint (LinearDelay_Wait exact_ops ld i))"
proof -
  have val: "sint (LinearDelay_Wait exact_ops ld k) = line_at ld k" if "1 \<le> k" "k \<le> n" for k
    using that fits exact_linear_sint [of k ld] by (simp add: fits_def)
  have "0 \<le> sint (LinearDelay_Wait exact_ops ld i)"
    if last: "0 \<le> sint (LinearDelay_Wait exact_ops ld n)" and i: "1 \<le> i" "i < n" for i
  proof (cases "0 \<le> Slope ld")
    case True
    with i have "0 \<le> Slope ld * (real i - 1)" by simp
    then have "0 \<le> line_at ld i" using base by (simp add: line_at_def trunc_real_nonneg)
    with val [of i] i show ?thesis by simp
  next
    case False
    with i have "Slope ld * (real n - 1) \<le> Slope ld * (real i - 1)"
      by (simp add: mult_le_cancel_left)
    then have "line_at ld n \<le> line_at ld i"
      by (simp add: line_at_def trunc_real_mono)
    with val [of i] val [of n] last i show ?thesis by simp
  qed
  then show ?thesis using start by (auto simp add: LinearDelay_OK_None_iff)
qed

section \<open>Claims about the delay algorithms\<close>

text \<open>
  Claim C1 says that a delay algorithm whose check \<^verbatim>\<open>OK(n)\<close> succeeds never returns a
  negative wait for an iteration in \<open>1..n-1\<close>. LinearDelay breaks it: \<^verbatim>\<open>OK\<close> returns nil
  as soon as \<^verbatim>\<open>Wait(n)\<close> is non-negative, without looking at the earlier iterations. For
  the line with base \<open>-1ns\<close> and slope \<open>1\<close> the check for two iterations succeeds
  (\<^verbatim>\<open>Wait(2) = 0\<close>), and the only wait of the checked range is \<^verbatim>\<open>Wait(1) = -1ns\<close>.
\<close>

theorem LinearDelay_OK_accepts_negative_wait:
  "LinearDelay_OK exact_ops rising_line 2 = None \<and>
   sint (LinearDelay_Wait exact_ops rising_line 1) = - 1"
  by (simp add: LinearDelay_OK_def rising_line_waits del: One_nat_def)
    (simp add: rising_line_def)

text \<open>
  Claim C2 says that \<^verbatim>\<open>Wait(0)\<close> is zero for every algorithm. It is for LinearDelay and
  LogarithmicDelay, whose \<^verbatim>\<open>Wait\<close> tests \<^verbatim>\<open>n == 0\<close> first. \<^verbatim>\<open>FixedDelay.Wait\<close> ignores its
  argument and returns the fixed duration at every iteration, 0 included, so its
  \<^verbatim>\<open>Wait(0)\<close> is zero only for the zero duration.
\<close>

theorem Wait_zero:
  "LinearDelay_Wait ops ld 0 = 0 \<and> LogarithmicDelay_Wait lops lg 0 = 0 \<and>
   FixedDelay_Wait fd 0 = fd \<and> (FixedDelay_Wait fd 0 = 0) = (fd = 0)"
  by (simp add: LinearDelay_Wait_def LogarithmicDelay_Wait_def FixedDelay_Wait_def)

text \<open>The default algorithm waits one second at iteration 0.\<close>

theorem FixedDelay_Wait_zero_counterexample:
  "FixedDelay_Wait Fixed1s 0 = 1000000000 \<and> FixedDelay_Wait Fixed1s 0 \<noteq> 0"
  by (simp add: FixedDelay_Wait_def Fixed1s_def)

text \<open>
  Claim C6: for a LinearDelay with \<open>Start \<ge> 0\<close> and \<open>Base \<ge> 0\<close>, any slope and any
  iteration count \<open>n\<close>, \<^verbatim>\<open>OK(n)\<close> succeeds if and only if the final computed wait
  \<^verbatim>\<open>Wait(n)\<close> is non-negative or every wait of the iterations \<open>1..n-1\<close> is.
\<close>

theorem LinearDelay_OK_iff:
  assumes "0 \<le> sint (LinearDelay.Start ld)" and "0 \<le> sint (Base ld)"
  shows "(LinearDelay_OK ops ld n = None) =
         (0 \<le> sint (LinearDelay_Wait ops ld n) \<or>
          (\<forall>i. 1 \<le> i \<and> i < n \<longrightarrow> 0 \<le> sint (LinearDelay_Wait ops ld i)))"
  using assms by (simp add: LinearDelay_OK_None_iff)

theorem LinearDelay_OK_iff_witness:
  "0 \<le> sint (LinearDelay.Start falling_line) \<and> 0 \<le> sint (Base falling_line) \<and>
   LinearDelay_OK exact_ops falling_line 5 = None \<and>
   sint (LinearDelay_Wait exact_ops falling_line 5) = 99999900"
proof -
  have h: "0 \<le> sint (LinearDelay.Start falling_line)" "0 \<le> sint (Base falling_line)"
    by (simp_all add: falling_line_def)
  from LinearDelay_OK_iff [OF h, of exact_ops 5] h show ?thesis
    by (simp add: falling_line_wait)
qed

text \<open>
  Claim C7 says that \<^verbatim>\<open>OK\<close> rejects a LogarithmicDelay whose Amplifier or Coefficient is
  zero. \<^verbatim>\<open>OK\<close> never reads these fields: it tests \<open>Start\<close> and the sign of the computed
  waits only. A curve with amplifier 0 (and coefficient 1, modifier 0, offset 0) and a
  curve with coefficient 0 (and amplifier 1, modifier 1, offset 0) both compute the wait
  0 at every iteration, and both pass the check for three iterations.
\<close>

theorem LogarithmicDelay_OK_accepts_zero_fields:
  "Amplifier zero_amplifier = 0 \<and> LogarithmicDelay_OK exact_ops zero_amplifier 3 = None \<and>
   Coefficient zero_coefficient = 0 \<and> LogarithmicDelay_OK exact_ops zero_coefficient 3 = None"
  by (simp add: LogarithmicDelay_OK_None_iff zero_amplifier_wait zero_coefficient_wait)
    (simp add: zero_amplifier_def zero_coefficient_def)

text \<open>
  Claim C8: two LogarithmicDelay values that differ in the Denominator field only compute
  the same wait at every iteration, and for \<open>n \<ge> 1\<close> the wait is the unit scale times
  the truncation of \<open>A\<cdot>ln(C\<cdot>n + M) + V\<close> to an integral duration. The truncation comes
  first and the scaling second, in 64-bit arithmetic.
\<close>

theorem Denominator_unused:
  "LogarithmicDelay_Wait ops (ld\<lparr>Denominator := x\<rparr>) n = LogarithmicDelay_Wait ops ld n \<and>
   (1 \<le> n \<longrightarrow>
      LogarithmicDelay_Wait ops ld n =
        Units ld *
        to_duration ops
          (fmuladd ops (Amplifier ld)
             (flog ops (fmuladd ops (Coefficient ld) (of_uint ops n) (Modifier ld)))
             (VerticalOffset ld)))"
  by (simp add: LogarithmicDelay_Wait_def)

text \<open>Half a millisecond on the curve is truncated to no wait at all, whatever the denominator.\<close>

theorem Denominator_unused_witness:
  "LogarithmicDelay_Wait exact_ops (half_unit\<lparr>Denominator := 7\<rparr>) 1 =
     LogarithmicDelay_Wait exact_ops half_unit 1 \<and>
   LogarithmicDelay_Wait exact_ops half_unit 1 = 0"
  using Denominator_unused [where ops = exact_ops and ld = half_unit and x = 7 and n = 1]
  by (simp add: exact_ops_def trunc_real_def half_unit_def)

section \<open>Claims about the cancellable sleep\<close>

lemma sleep_positive:
  assumes "0 < sint d"
  shows "trace (snd (sleep ctx d st)) = trace st @ [NewTimer d, StopTimer] \<and>
         clock (snd (sleep ctx d st)) = Suc (clock st) \<and>
         fst (sleep ctx d st) =
           (if ctx_done ctx (clock st) \<and> \<not> timer_first ctx (clock st) then Some (ctx_Err ctx)
            else None)"
proof -
  from assms have "d \<noteq> 0" and "\<not> sint d < 0" by auto
  then show ?thesis by (simp add: sleep_def Let_def emit_def tick_def)
qed

lemma sleep_quiet:
  assumes "fires_at ctx = None" and "0 \<le> sint d"
  shows "fst (sleep ctx d st) = None \<and>
         trace (snd (sleep ctx d st)) = trace st @ timer_events d"
  using assms by (simp add: sleep_def ctx_done_def timer_events_def Let_def emit_def tick_def)

lemma sleep_trace:
  "\<exists>evs. trace (snd (sleep ctx d st)) = trace st @ evs \<and> invoked evs = []"
  by (simp add: sleep_def Let_def emit_def tick_def)

text \<open>
  Claim C9: for every context and duration \<open>d\<close>, the sleep returns nil at once when
  \<open>d = 0\<close>, and the negative-duration error when \<open>d < 0\<close>. In both cases the run state
  comes back unchanged: no timer was created and no blocking step was made.
\<close>

theorem sleep_zero_negative:
  "(d = 0 \<longrightarrow> sleep ctx d st = (None, st)) \<and>
   (sint d < 0 \<longrightarrow> sleep ctx d st = (Some ErrNegativeDuration, st))"
  by (auto simp add: sleep_def)

theorem sleep_zero_negative_witness:
  "sleep (fired_ctx 0) 0 \<lparr>clock = 0, trace = []\<rparr> = (None, \<lparr>clock = 0, trace = []\<rparr>) \<and>
   sint (- 1 :: duration) < 0 \<and>
   sleep quiet_ctx (- 1) \<lparr>clock = 0, trace = []\<rparr> =
     (Some ErrNegativeDuration, \<lparr>clock = 0, trace = []\<rparr>)"
  using sleep_zero_negative [of 0 "fired_ctx 0" "\<lparr>clock = 0, trace = []\<rparr>"]
    sleep_zero_negative [of "- 1" quiet_ctx "\<lparr>clock = 0, trace = []\<rparr>"]
  by simp

text \<open>
  Claim C10: the sleep called with duration zero returns nil also when the cancellation
  signal of its context has already fired, since the test \<^verbatim>\<open>d == 0\<close> comes before the
  \<^verbatim>\<open>select\<close> on \<^verbatim>\<open>ctx.Done()\<close>; a wait of length zero does not report the cancellation.
\<close>

theorem sleep_zero_ignores_cancellation:
  "ctx_done ctx (clock st) \<longrightarrow> sleep ctx 0 st = (None, st)"
  by (simp add: sleep_def)

text \<open>
  In a context that has fired, the sleep of length zero returns nil where a sleep of one
  nanosecond returns the context's error.
\<close>

theorem sleep_zero_ignores_cancellation_witness:
  "ctx_done (fired_ctx 0) 0 \<and>
   sleep (fired_ctx 0) 0 \<lparr>clock = 0, trace = []\<rparr> = (None, \<lparr>clock = 0, trace = []\<rparr>) \<and>
   fst (sleep (fired_ctx 0) 1 \<lparr>clock = 0, trace = []\<rparr>) =
     Some (Foreign ''context deadline exceeded'')"
proof -
  have d: "ctx_done (fired_ctx 0) (clock \<lparr>clock = 0, trace = []\<rparr>)"
    by (simp add: ctx_done_def fired_ctx_def)
  have p: "fst (sleep (fired_ctx 0) 1 \<lparr>clock = 0, trace = []\<rparr>) =
      Some (Foreign ''context deadline exceeded'')"
    using d sleep_positive [of 1 "fired_ctx 0" "\<lparr>clock = 0, trace = []\<rparr>"]
    by (simp add: fired_ctx_def)
  from sleep_zero_ignores_cancellation [of "fired_ctx 0" "\<lparr>clock = 0, trace = []\<rparr>"] d p
  show ?thesis by simp
qed

section \<open>Traces of the retry loop\<close>

lemma invoked_append: "invoked (xs @ ys) = invoked xs @ invoked ys"
  by (induction xs rule: invoked.induct) simp_all

lemma waits_queried_append: "waits_queried (xs @ ys) = waits_queried xs @ waits_queried ys"
  by (induction xs rule: waits_queried.induct) simp_all

lemma in_invoked_iff: "(i \<in> set (invoked es)) = (Invoke i \<in> set es)"
  by (induction es rule: invoked.induct) auto

lemma invoked_timer_events: "invoked (timer_events d) = []"
  by (simp add: timer_events_def)

lemma waits_queried_timer_events: "waits_queried (timer_events d) = []"
  by (simp add: timer_events_def)

lemma invoked_attempt_events: "invoked (attempt_events alg i) = [i]"
  by (simp add: attempt_events_def invoked_append invoked_timer_events)

lemma waits_queried_attempt_events:
  "waits_queried (attempt_events alg i) = (if 0 < i then [i] else [])"
  by (simp add: attempt_events_def waits_queried_append waits_queried_timer_events)

lemma invoked_attempts: "invoked (concat (map (attempt_events alg) [i..<n])) = [i..<n]"
  by (induction n) (simp_all add: invoked_append invoked_attempt_events)

lemma waits_queried_attempts:
  "waits_queried (concat (map (attempt_events alg) [0..<n])) = [1..<n]"
proof (induction n)
  case 0
  show ?case by simp
next
  case (Suc n)
  show ?case
  proof (cases "n = 0")
    case True
    then show ?thesis by (simp add: waits_queried_attempt_events)
  next
    case False
    with Suc show ?thesis
      by (simp add: waits_queried_append waits_queried_attempt_events)
  qed
qed

lemma runFunction_trace: "trace (snd (runFunction r i st)) = trace st @ [Invoke i]"
  by (simp add: runFunction_def Let_def emit_def tick_def split: outcome.splits option.splits)

lemma runFunction_retry:
  assumes "function r = Some f" and "f i = Return (Some ErrDoRetry)"
  shows "fst (runFunction r i st) = Some ErrDoRetry"
  using assms by (simp add: runFunction_def Let_def)

lemma runFunction_panic:
  assumes "function r = Some f" and "f i = Panic v"
  shows "fst (runFunction r i st) = Some (FmtError (''recovered from panic: '' @ v))"
  using assms by (simp add: runFunction_def Let_def)

text \<open>The loop from iteration \<open>i\<close> on, when every attempt asks for a retry and nothing cancels.\<close>

lemma exec_loop_retry:
  assumes fn: "function r = Some f"
    and retry: "\<forall>j. j < iterations r \<longrightarrow> f j = Return (Some ErrDoRetry)"
    and nonneg: "\<forall>j. 1 \<le> j \<and> j < iterations r \<longrightarrow> 0 \<le> sint (Wait alg j)"
    and quiet: "fires_at ctx = None"
  shows "fst (exec_loop ctx alg r i st) = Some ErrAttemptsExhausted \<and>
         trace (snd (exec_loop ctx alg r i st)) =
           trace st @ concat (map (attempt_events alg) [i..<iterations r])"
proof (induction k \<equiv> "iterations r - i" arbitrary: i st)
  case 0
  then have "\<not> i < iterations r" by simp
  then show ?case by (simp add: exec_loop.simps [of ctx alg r i st])
next
  case (Suc k)
  then have lt: "i < iterations r" and k: "k = iterations r - Suc i" by simp_all
  define pre where
    "pre = (if 0 < i then sleep ctx (Wait alg i) (emit (QueryWait i) st) else (None, st))"
  have pre_fst: "fst pre = None"
    using sleep_quiet [OF quiet, of "Wait alg i" "emit (QueryWait i) st"] nonneg lt
    by (simp add: pre_def)
  have pre_trace: "trace (snd pre) =
      trace st @ (if 0 < i then QueryWait i # timer_events (Wait alg i) else [])"
    using sleep_quiet [OF quiet, of "Wait alg i" "emit (QueryWait i) st"] nonneg lt
    by (simp add: pre_def emit_def)
  obtain st1 where pre_eq: "pre = (None, st1)"
    using pre_fst by (cases pre) simp
  from retry lt have fi: "f i = Return (Some ErrDoRetry)" by simp
  obtain st2 where run: "runFunction r i st1 = (Some ErrDoRetry, st2)"
    using runFunction_retry [OF fn fi, of st1] by (cases "runFunction r i st1") simp
  have tr2: "trace st2 = trace st @ attempt_events alg i"
    using runFunction_trace [of r i st1] run pre_trace pre_eq
    by (simp add: attempt_events_def)
  have step: "exec_loop ctx alg r i st = exec_loop ctx alg r (Suc i) st2"
    using lt pre_eq run by (simp add: exec_loop.simps [of ctx alg r i st] pre_def [symmetric])
  from Suc.hyps(1) [OF k, of st2] step tr2 lt show ?case
    by (simp add: upt_conv_Cons)
qed

text \<open>
  The loop from iteration \<open>j\<close> on, when the function panics at attempt \<open>i \<ge> j\<close> and the
  run gets as far as that attempt: the attempts \<open>j..i-1\<close> come first, attempt \<open>i\<close> is
  the last event, and the loop returns the error made from the recovered panic.
\<close>

lemma exec_loop_panic:
  assumes fn: "function r = Some f" and pan: "f i = Panic v"
  shows "exec_loop ctx alg r j st = (e, st') \<Longrightarrow> i \<in> set (invoked (trace st')) \<Longrightarrow> j \<le> i \<Longrightarrow>
         \<forall>k \<in> set (invoked (trace st)). k < j \<Longrightarrow>
         e = Some (FmtError (''recovered from panic: '' @ v)) \<and>
         (\<exists>mid. trace st' = trace st @ mid @ [Invoke i] \<and> invoked mid = [j..<i])"
proof (induction k \<equiv> "iterations r - j" arbitrary: j st)
  case 0
  then have "\<not> j < iterations r" by simp
  with 0 have "st' = st" by (simp add: exec_loop.simps [of ctx alg r j st])
  with 0 show ?case by auto
next
  case (Suc k)
  then have lt: "j < iterations r" and k: "k = iterations r - Suc j" by simp_all
  note loop = \<open>exec_loop ctx alg r j st = (e, st')\<close>
  note inv = \<open>\<forall>k \<in> set (invoked (trace st)). k < j\<close>
  note seen = \<open>i \<in> set (invoked (trace st'))\<close>
  define pre where
    "pre = (if 0 < j then sleep ctx (Wait alg j) (emit (QueryWait j) st) else (None, st))"
  obtain w st1 where pre_eq: "pre = (w, st1)" by (cases pre)
  have "\<exists>evs. trace (snd pre) = trace st @ evs \<and> invoked evs = []"
    using sleep_trace [of ctx "Wait alg j" "emit (QueryWait j) st"]
    by (auto simp add: pre_def emit_def invoked_append)
  then obtain evs where evs: "trace st1 = trace st @ evs" "invoked evs = []"
    using pre_eq by auto
  show ?case
  proof (cases w)
    case (Some x)
    with loop lt pre_eq have "st' = st1"
      by (simp add: exec_loop.simps [of ctx alg r j st] pre_def [symmetric])
    with seen evs inv \<open>j \<le> i\<close> show ?thesis by (auto simp add: invoked_append)
  next
    case None
    obtain res st2 where run: "runFunction r j st1 = (res, st2)"
      by (cases "runFunction r j st1")
    have tr2: "trace st2 = trace st @ evs @ [Invoke j]"
      using runFunction_trace [of r j st1] run evs by simp
    show ?thesis
    proof (cases "res = Some ErrDoRetry")
      case False
      with loop lt pre_eq None run have fin: "e = res" "st' = st2"
        by (auto simp add: exec_loop.simps [of ctx alg r j st] pre_def [symmetric]
            split: option.splits)
      with seen tr2 inv evs \<open>j \<le> i\<close> have "i = j" by (auto simp add: invoked_append)
      with runFunction_panic [OF fn pan, of st1] run fin
      have "e = Some (FmtError (''recovered from panic: '' @ v))" by simp
      moreover from \<open>i = j\<close> fin tr2 evs
      have "trace st' = trace st @ evs @ [Invoke i] \<and> invoked evs = [j..<i]" by simp
      ultimately show ?thesis by blast
    next
      case True
      with loop lt pre_eq None run have next_loop: "exec_loop ctx alg r (Suc j) st2 = (e, st')"
        by (simp add: exec_loop.simps [of ctx alg r j st] pre_def [symmetric])
      have "i \<noteq> j"
      proof
        assume "i = j"
        with runFunction_panic [OF fn pan, of st1] run True
        have "FmtError (''recovered from panic: '' @ v) = ErrDoRetry" by simp
        then show False by (simp add: ErrDoRetry_def)
      qed
      with \<open>j \<le> i\<close> have le: "Suc j \<le> i" by simp
      have inv2: "\<forall>k \<in> set (invoked (trace st2)). k < Suc j"
        using tr2 inv evs by (auto simp add: invoked_append)
      from Suc.hyps(1) [OF k next_loop seen le inv2]
      obtain mid where mid: "trace st' = trace st2 @ mid @ [Invoke i]" "invoked mid = [Suc j..<i]"
        and e: "e = Some (FmtError (''recovered from panic: '' @ v))" by blast
      from mid tr2 have "trace st' = trace st @ (evs @ [Invoke j] @ mid) @ [Invoke i]" by simp
      moreover from mid evs le have "invoked (evs @ [Invoke j] @ mid) = [j..<i]"
        by (simp add: invoked_append upt_conv_Cons)
      ultimately show ?thesis using e by blast
    qed
  qed
qed

subsection \<open>Runs on the concrete inputs\<close>

lemma retry_rerun_fields:
  "function retry_rerun = Some always_retry" "iterations retry_rerun = 3"
  "algorithm retry_rerun = Some (FixedDelay_alg Fixed100ms)" "err retry_rerun = None"
  by (simp_all add: retry_rerun_def WithFunction_def WithAlgorithm_def New_def Let_def
      FixedDelay_alg_def FixedDelay_OK_def Fixed100ms_def)

lemma panic_rerun_cancelled:
  "Execute panic_rerun (fired_ctx 0) =
     (Return (Some (Foreign ''shutting down'')), \<lparr>clock = 1, trace = [QueryWarmup, Invoke 0]\<rparr>)"
  by (simp add: Execute_def Execute_body_def panic_rerun_def WithFunction_def New_def Err_def
      DefaultAlgorithm_def FixedDelay_alg_def FixedDelay_OK_def FixedDelay_Warmup_def Fixed1s_def
      sleep_def emit_def tick_def exec_loop.simps runFunction_def always_panic_def Let_def
      ErrDoRetry_def fired_ctx_def ctx_done_def)

lemma panic_rerun_quiet:
  "Execute panic_rerun quiet_ctx =
     (Return (Some (FmtError ''recovered from panic: boom'')),
      \<lparr>clock = 1, trace = [QueryWarmup, Invoke 0]\<rparr>)"
  by (simp add: Execute_def Execute_body_def panic_rerun_def WithFunction_def New_def Err_def
      DefaultAlgorithm_def FixedDelay_alg_def FixedDelay_OK_def FixedDelay_Warmup_def Fixed1s_def
      sleep_def emit_def tick_def exec_loop.simps runFunction_def always_panic_def Let_def
      ErrDoRetry_def quiet_ctx_def ctx_done_def)

lemma succeed_rerun_cancelled:
  "Execute succeed_rerun (fired_ctx 1) =
     (Return (Some (Foreign ''shutting down'')), \<lparr>clock = 1, trace = [QueryWarmup, Invoke 0]\<rparr>)"
  by (simp add: Execute_def Execute_body_def succeed_rerun_def WithFunction_def New_def Err_def
      DefaultAlgorithm_def FixedDelay_alg_def FixedDelay_OK_def FixedDelay_Warmup_def Fixed1s_def
      sleep_def emit_def tick_def exec_loop.simps runFunction_def succeed_def Let_def
      fired_ctx_def ctx_done_def)

lemma succeed_rerun_quiet:
  "Execute succeed_rerun quiet_ctx =
     (Return None, \<lparr>clock = 1, trace = [QueryWarmup, Invoke 0]\<rparr>)"
  by (simp add: Execute_def Execute_body_def succeed_rerun_def WithFunction_def New_def Err_def
      DefaultAlgorithm_def FixedDelay_alg_def FixedDelay_OK_def FixedDelay_Warmup_def Fixed1s_def
      sleep_def emit_def tick_def exec_loop.simps runFunction_def succeed_def Let_def
      quiet_ctx_def ctx_done_def)

text \<open>
  The configuration errors come before any wait or attempt; an operation that succeeds
  at its third attempt is invoked three times; a cancellation during the warmup ends the
  run before the first attempt.
\<close>

lemmas run_simps =
  Execute_def Execute_body_def WithFunction_def WithAlgorithm_def New_def Err_def
  DefaultAlgorithm_def FixedDelay_alg_def FixedDelay_OK_def FixedDelay_Warmup_def
  FixedDelay_Wait_def Fixed1s_def sleep_def emit_def tick_def exec_loop.simps runFunction_def
  Let_def ErrDoRetry_def ctx_done_def quiet_ctx_def fired_ctx_def

lemma no_function_run:
  "Execute (New 3) quiet_ctx = (Return (Some ErrNoFunction), \<lparr>clock = 0, trace = []\<rparr>)"
  by (simp add: run_simps)

lemma too_few_iterations_run:
  "Execute (WithFunction (New 1) (Some succeed)) quiet_ctx =
     (Return (Some ErrTooFewIterations), \<lparr>clock = 0, trace = []\<rparr>)"
  by (simp add: run_simps)

lemma nil_algorithm_run:
  "Execute (WithFunction (WithAlgorithm (New 3) None) (Some succeed)) quiet_ctx =
     (Return (Some ErrNilAlgorithm), \<lparr>clock = 0, trace = []\<rparr>)"
  by (simp add: run_simps)

lemma third_time_lucky_run:
  "Execute (WithFunction (WithAlgorithm (New 5) (Some (FixedDelay_alg 0))) (Some third_time_lucky))
     quiet_ctx =
     (Return None,
      \<lparr>clock = 3, trace = [QueryWarmup, Invoke 0, QueryWait 1, Invoke 1, QueryWait 2, Invoke 2]\<rparr>)"
  by (simp add: run_simps third_time_lucky_def)

lemma cancelled_warmup_run:
  "Execute (WithFunction (WithAlgorithm (New 3) (Some (LinearDelay_alg exact_ops slow_start)))
       (Some succeed)) (fired_ctx 0) =
     (Return (Some (Foreign ''shutting down'')),
      \<lparr>clock = 1, trace = [QueryWarmup, NewTimer 1000000000, StopTimer]\<rparr>)"
  by (simp add: run_simps LinearDelay_alg_def LinearDelay_OK_def LinearDelay_Warmup_def
      LinearDelay_Wait_def exact_ops_def trunc_real_def slow_start_def)

section \<open>Claims about Execute\<close>

text \<open>
  Claim C3: take an executor with an attached function, a budget \<open>n \<ge> 2\<close>, no deferred
  error, an algorithm that passes \<^verbatim>\<open>OK(n)\<close> and whose waits (the warmup and the waits
  of iterations \<open>1..n-1\<close>) are non-negative, and a context whose signal never fires. If
  the function returns \<^verbatim>\<open>ErrDoRetry\<close> at every attempt, \<^verbatim>\<open>Execute\<close> returns
  \<^verbatim>\<open>ErrAttemptsExhausted\<close>; its trace is the warmup followed, for \<open>i = 0..n-1\<close> in order,
  by the wait of iteration \<open>i\<close> (for \<open>i > 0\<close>: the call \<^verbatim>\<open>Wait(i)\<close> and the sleep of that
  duration) and then attempt \<open>i\<close>. So the function is invoked exactly \<open>n\<close> times, with
  \<open>0..n-1\<close>, and \<^verbatim>\<open>Wait\<close> is called exactly \<open>n-1\<close> times, with \<open>1..n-1\<close>.
\<close>

theorem Execute_always_retry:
  assumes fn: "function r = Some f"
    and budget: "2 \<le> iterations r"
    and alg: "algorithm r = Some alg" "err r = None" "OK alg (iterations r) = None"
    and warm: "0 \<le> sint (Warmup alg)"
    and nonneg: "\<forall>i. 1 \<le> i \<and> i < iterations r \<longrightarrow> 0 \<le> sint (Wait alg i)"
    and quiet: "fires_at ctx = None"
    and retry: "\<forall>i. i < iterations r \<longrightarrow> f i = Return (Some ErrDoRetry)"
  shows "fst (Execute r ctx) = Return (Some ErrAttemptsExhausted) \<and>
         trace (snd (Execute r ctx)) =
           QueryWarmup # timer_events (Warmup alg) @
           concat (map (attempt_events alg) [0..<iterations r]) \<and>
         invoked (trace (snd (Execute r ctx))) = [0..<iterations r] \<and>
         waits_queried (trace (snd (Execute r ctx))) = [1..<iterations r]"
proof -
  define st0 where "st0 = emit QueryWarmup \<lparr>clock = 0, trace = []\<rparr>"
  have "fst (sleep ctx (Warmup alg) st0) = None"
    "trace (snd (sleep ctx (Warmup alg) st0)) = QueryWarmup # timer_events (Warmup alg)"
    using sleep_quiet [OF quiet warm, of st0] by (simp_all add: st0_def emit_def)
  then obtain st1 where st1: "sleep ctx (Warmup alg) st0 = (None, st1)"
    and tr1: "trace st1 = QueryWarmup # timer_events (Warmup alg)"
    by (cases "sleep ctx (Warmup alg) st0") simp
  obtain e st2 where loop: "exec_loop ctx alg r 0 st1 = (e, st2)"
    by (cases "exec_loop ctx alg r 0 st1")
  from exec_loop_retry [OF fn retry nonneg quiet, of 0 st1] loop tr1
  have e: "e = Some ErrAttemptsExhausted"
    and tr2: "trace st2 = QueryWarmup # timer_events (Warmup alg) @
                concat (map (attempt_events alg) [0..<iterations r])"
    by simp_all
  have body: "Execute_body r ctx \<lparr>clock = 0, trace = []\<rparr> = (Return e, st2)"
    using fn budget alg st1 loop by (simp add: Execute_body_def Err_def st0_def [symmetric])
  have ex: "Execute r ctx = (Return e, st2)"
    using body quiet by (simp add: Execute_def ctx_done_def)
  have inv: "invoked (trace st2) = [0..<iterations r]"
    unfolding tr2 using invoked_attempts [of alg 0 "iterations r"]
    by (simp add: invoked_append invoked_timer_events del: upt_0)
  have wq: "waits_queried (trace st2) = [1..<iterations r]"
    unfolding tr2 using waits_queried_attempts [of alg "iterations r"]
    by (simp add: waits_queried_append waits_queried_timer_events del: upt_0)
  from ex e tr2 inv wq show ?thesis by simp
qed

text \<open>Three attempts with 100ms between them.\<close>

theorem Execute_always_retry_witness:
  "fst (Execute retry_rerun quiet_ctx) = Return (Some ErrAttemptsExhausted) \<and>
   trace (snd (Execute retry_rerun quiet_ctx)) =
     [QueryWarmup, Invoke 0, QueryWait 1, NewTimer 100000000, StopTimer, Invoke 1,
      QueryWait 2, NewTimer 100000000, StopTimer, Invoke 2] \<and>
   invoked (trace (snd (Execute retry_rerun quiet_ctx))) = [0, 1, 2] \<and>
   waits_queried (trace (snd (Execute retry_rerun quiet_ctx))) = [1, 2]"
proof -
  have ok: "OK (FixedDelay_alg Fixed100ms) (iterations retry_rerun) = None"
    by (simp add: FixedDelay_alg_def FixedDelay_OK_def Fixed100ms_def)
  have budget: "2 \<le> iterations retry_rerun"
    by (simp add: retry_rerun_fields(2))
  have warm: "0 \<le> sint (Warmup (FixedDelay_alg Fixed100ms))"
    by (simp add: FixedDelay_alg_def FixedDelay_Warmup_def)
  have nonneg: "\<forall>i. 1 \<le> i \<and> i < iterations retry_rerun \<longrightarrow>
      0 \<le> sint (Wait (FixedDelay_alg Fixed100ms) i)"
    by (simp add: FixedDelay_alg_def FixedDelay_Wait_def Fixed100ms_def)
  have quiet: "fires_at quiet_ctx = None" by (simp add: quiet_ctx_def)
  have retry: "\<forall>i. i < iterations retry_rerun \<longrightarrow> always_retry i = Return (Some ErrDoRetry)"
    by (simp add: always_retry_def)
  have upt3: "[0..<3] = [0, 1, 2]" "[1..<3] = [1, 2]" by (simp_all add: upt_conv_Cons)
  from Execute_always_retry
    [OF retry_rerun_fields(1) budget retry_rerun_fields(3,4) ok warm nonneg quiet retry]
  show ?thesis
    by (simp add: retry_rerun_fields(2) upt3 attempt_events_def timer_events_def
        FixedDelay_alg_def FixedDelay_Wait_def FixedDelay_Warmup_def Fixed100ms_def)
qed

text \<open>
  Claim C4: on every path on which \<^verbatim>\<open>Execute\<close> returns (configuration error, sleep
  error, success, terminal error of the function, attempts exhausted), if the
  cancellation signal has fired when the deferred function inspects the context, the
  value returned is the cause recorded by the cancellation, whatever the body computed.
\<close>

theorem Execute_cancelled:
  assumes "Execute r ctx = (Return e, st)" and "ctx_done ctx (clock st)"
  shows "e = Some (ctx_Cause ctx)"
  using assms by (auto simp add: Execute_def split: prod.splits outcome.splits)

text \<open>
  The function succeeds at its first attempt and the signal fires while it runs: the
  run returns the cause, where it returns nil in a context that stays quiet.
\<close>

theorem Execute_cancelled_witness:
  "ctx_done (fired_ctx 1) 1 \<and>
   fst (Execute succeed_rerun (fired_ctx 1)) = Return (Some (ctx_Cause (fired_ctx 1))) \<and>
   fst (Execute succeed_rerun quiet_ctx) = Return None"
proof -
  have d: "ctx_done (fired_ctx 1) (clock \<lparr>clock = 1, trace = [QueryWarmup, Invoke 0]\<rparr>)"
    by (simp add: ctx_done_def fired_ctx_def)
  from Execute_cancelled [OF succeed_rerun_cancelled d] d show ?thesis
    by (simp add: succeed_rerun_cancelled succeed_rerun_quiet del: One_nat_def)
qed

text \<open>
  Claim C5, as amended: if the function panics with value \<open>v\<close> at attempt \<open>i\<close> and the run
  makes that attempt, then the attempts \<open>0..i-1\<close> precede it and attempt \<open>i\<close> is the last
  thing the run does, so the function is not invoked again; and \<^verbatim>\<open>Execute\<close> returns the
  error with message \<^verbatim>\<open>recovered from panic: v\<close>, unless the cancellation signal has fired
  by the time it returns, in which case it returns the cancellation's cause.
\<close>

theorem Execute_panic:
  assumes fn: "function r = Some f" and pan: "f i = Panic v"
    and ex: "Execute r ctx = (res, st)"
    and seen: "Invoke i \<in> set (trace st)"
  shows "res = Return (if ctx_done ctx (clock st) then Some (ctx_Cause ctx)
                       else Some (FmtError (''recovered from panic: '' @ v))) \<and>
         (\<exists>before. trace st = before @ [Invoke i] \<and> invoked before = [0..<i])"
proof -
  define st0 where "st0 = emit QueryWarmup \<lparr>clock = 0, trace = []\<rparr>"
  obtain b stb where body: "Execute_body r ctx \<lparr>clock = 0, trace = []\<rparr> = (b, stb)"
    by (cases "Execute_body r ctx \<lparr>clock = 0, trace = []\<rparr>")
  with ex have st: "stb = st" by (auto simp add: Execute_def split: outcome.splits)
  have quiet0: "invoked (trace st0) = []" by (simp add: st0_def emit_def)
  have key: "invoked (trace stb) = [] \<or>
             (\<exists>alg st1 e. exec_loop ctx alg r 0 st1 = (e, stb) \<and> b = Return e \<and>
                invoked (trace st1) = [])"
  proof (cases "algorithm r")
    case None
    with body show ?thesis
      by (auto simp add: Execute_body_def split: if_splits outcome.splits option.splits)
  next
    case (Some alg)
    obtain w st1 where sl: "sleep ctx (Warmup alg) st0 = (w, st1)"
      by (cases "sleep ctx (Warmup alg) st0")
    have q1: "invoked (trace st1) = []"
      using sleep_trace [of ctx "Warmup alg" st0] sl quiet0 by (auto simp add: invoked_append)
    obtain e st2 where lp: "exec_loop ctx alg r 0 st1 = (e, st2)"
      by (cases "exec_loop ctx alg r 0 st1")
    from body Some sl lp q1 show ?thesis
      by (auto simp add: Execute_body_def st0_def [symmetric]
          split: if_splits outcome.splits option.splits)
  qed
  from seen st have seen': "i \<in> set (invoked (trace stb))" by (simp add: in_invoked_iff)
  with key obtain alg st1 e where lp: "exec_loop ctx alg r 0 st1 = (e, stb)"
    and b: "b = Return e" and q1: "invoked (trace st1) = []" by auto
  from q1 have inv: "\<forall>k \<in> set (invoked (trace st1)). k < 0" by simp
  from exec_loop_panic [OF fn pan lp seen' _ inv]
  obtain mid where e: "e = Some (FmtError (''recovered from panic: '' @ v))"
    and mid: "trace stb = trace st1 @ mid @ [Invoke i]" "invoked mid = [0..<i]" by auto
  from ex body b e st
  have "res = Return (if ctx_done ctx (clock st) then Some (ctx_Cause ctx)
                      else Some (FmtError (''recovered from panic: '' @ v)))"
    by (auto simp add: Execute_def)
  moreover from mid q1 st
  have "trace st = (trace st1 @ mid) @ [Invoke i] \<and> invoked (trace st1 @ mid) = [0..<i]"
    by (simp add: invoked_append)
  ultimately show ?thesis by blast
qed

text \<open>A panic at the first attempt, in a context that stays quiet.\<close>

theorem Execute_panic_witness:
  "fst (Execute panic_rerun quiet_ctx) =
     Return (Some (FmtError ''recovered from panic: boom'')) \<and>
   trace (snd (Execute panic_rerun quiet_ctx)) = [QueryWarmup, Invoke 0]"
proof -
  have fn: "function panic_rerun = Some always_panic"
    by (simp add: panic_rerun_def WithFunction_def)
  have pan: "always_panic 0 = Panic ''boom''" by (simp add: always_panic_def)
  have seen: "Invoke 0 \<in> set (trace \<lparr>clock = 1, trace = [QueryWarmup, Invoke 0]\<rparr>)" by simp
  have nd: "\<not> ctx_done quiet_ctx 1" by (simp add: quiet_ctx_def ctx_done_def)
  from Execute_panic [OF fn pan panic_rerun_quiet seen] nd
  show ?thesis by (simp add: panic_rerun_quiet)
qed

text \<open>
  Claim C5 as stated fails when the context is cancelled: the function panics at
  attempt 0 in a context whose signal has fired, the panic is recovered and nothing is
  invoked afterwards, but \<^verbatim>\<open>Execute\<close> returns the cancellation's cause and not an
  error that describes the panic.
\<close>

theorem Execute_panic_counterexample:
  "always_panic 0 = Panic ''boom'' \<and>
   trace (snd (Execute panic_rerun (fired_ctx 0))) = [QueryWarmup, Invoke 0] \<and>
   fst (Execute panic_rerun (fired_ctx 0)) = Return (Some (Foreign ''shutting down'')) \<and>
   fst (Execute panic_rerun (fired_ctx 0)) \<noteq>
     Return (Some (FmtError ''recovered from panic: boom''))"
  by (simp add: panic_rerun_cancelled always_panic_def)

end
